theory Spec2Isabelle
  imports Main
begin

section \<open>The hidden click sequence of \<open>static/secret_logic.js\<close>\<close>

text \<open>
  The script keeps six module variables inside its \<open>DOMContentLoaded\<close> closure and
  reacts to clicks on three zones, to two repeating timers, to one deferred timeout and to
  the settling of one \<open>fetch\<close>. The model below is a record of the module variables
  together with the part of the browser the handlers act on: the children of
  \<open>document.body\<close>, the window's table of scheduled callbacks, the appearance of the
  third zone, and what was asked of \<open>window.location\<close>.

  Time stamps are the integers \<open>Date.now()\<close> returns (milliseconds). Every call of
  \<open>Date.now()\<close> in a handler is a separate argument of the handler's model, in the order
  in which the source makes the calls.
\<close>

subsection \<open>Data\<close>

text \<open>Nodes that the script mounts below \<open>document.body\<close>: the three zones and the
  \<open>div\<close> elements \<open>startTimer\<close> creates (numbered in order of creation).\<close>

datatype node = Zone1 | Zone2 | Zone3 | Overlay nat

text \<open>A callback in the window's timer table. The overlay's callback closes over
  \<open>startTime\<close> and \<open>durationSeconds\<close>; the duration is kept in milliseconds
  (\<open>3.5\<close> seconds is \<open>3500\<close>), so that \<open>(Date.now() - startTime) / 1000 >= durationSeconds\<close>
  reads \<open>now - startTime \<ge> duration\<close>.\<close>

datatype task = OverlayTask int int | CpsTask | BurstTask

text \<open>Style and text of zone 3: untouched, the button showing START, the green success
  indicator; its \<open>textContent\<close>.\<close>

datatype skin = Plain | Button | Success

datatype label = NoText | START | OK | Count nat

text \<open>The argument of \<open>resetSequence\<close>: the five template strings of the source, with the
  number each one interpolates.\<close>

datatype message =
    WrongTiming int
  | BlindTiming int
  | BetweenBlindTiming int
  | TooFewClicks nat
  | CommError

text \<open>A parsed JSON body, and \<open>undefined\<close> for the result of reading a missing property.\<close>

datatype jsval =
    Undefined
  | JNull
  | JBool bool
  | JNum int
  | JStr string
  | JArr "jsval list"
  | JObj "(string \<times> jsval) list"

text \<open>How the promise chain \<open>fetch(...).then(r => r.json())\<close> settles: \<open>fetch\<close> rejects
  (network failure), \<open>r.json()\<close> rejects (the body is not JSON), or a value is parsed.\<close>

datatype response = NetworkError | ParseError | Parsed jsval

record page =
  state :: nat
  lastClickTimestamp :: int
  clickerTimestamps :: "int list"
  cpsUpdateInterval :: "nat option"
  timerInterval :: "nat option"
  timerElement :: "nat option"
  body :: "node list"
  overlayText :: "int option"
  zone3Skin :: skin
  zone3Text :: label
  timers :: "(nat \<times> task) list"
  nextId :: nat
  nextElement :: nat
  fetchPending :: bool
  reloads :: nat
  href :: "jsval option"
  resetLog :: "message list"

text \<open>
  \<open>timers\<close> is the window's table of live intervals and timeouts, \<open>nextId\<close> the next
  handle \<open>setInterval\<close>/\<open>setTimeout\<close> returns (handles are never reused).
  \<open>overlayText\<close> is the elapsed time in milliseconds whose one-decimal rendering the
  overlay shows. \<open>reloads\<close> counts the calls of \<open>window.location.reload()\<close>, \<open>href\<close> is
  the value last assigned to \<open>window.location.href\<close>, and \<open>resetLog\<close> records every call
  of \<open>resetSequence\<close> with its argument (the source only uses the argument in a
  commented-out \<open>console.warn\<close>).
\<close>

definition init :: page where
  "init = \<lparr> state = 0, lastClickTimestamp = 0, clickerTimestamps = [],
            cpsUpdateInterval = None, timerInterval = None, timerElement = None,
            body = [Zone1], overlayText = None, zone3Skin = Plain, zone3Text = NoText,
            timers = [], nextId = 1, nextElement = 0, fetchPending = False,
            reloads = 0, href = None, resetLog = [] \<rparr>"

subsection \<open>Browser primitives\<close>

text \<open>\<open>clearInterval(h)\<close>: a \<open>null\<close> or stale handle cancels nothing. Intervals and
  timeouts share one pool of handles.\<close>

definition clearInterval :: "nat option \<Rightarrow> page \<Rightarrow> page" where
  "clearInterval h s =
     (case h of
        None \<Rightarrow> s
      | Some i \<Rightarrow> s\<lparr>timers := filter (\<lambda>e. fst e \<noteq> i) (timers s)\<rparr>)"

text \<open>\<open>setInterval\<close>/\<open>setTimeout\<close>: enter the callback and hand out a fresh handle.\<close>

definition schedule :: "task \<Rightarrow> page \<Rightarrow> nat \<times> page" where
  "schedule t s = (nextId s, s\<lparr>timers := timers s @ [(nextId s, t)], nextId := Suc (nextId s)\<rparr>)"

text \<open>\<open>el.remove()\<close> and \<open>document.body.appendChild(el)\<close> (which moves a node that is
  already mounted).\<close>

definition remove :: "node \<Rightarrow> page \<Rightarrow> page" where
  "remove n s = s\<lparr>body := removeAll n (body s)\<rparr>"

definition appendChild :: "node \<Rightarrow> page \<Rightarrow> page" where
  "appendChild n s = s\<lparr>body := removeAll n (body s) @ [n]\<rparr>"

subsection \<open>TimerOverlay: \<open>startTimer\<close> and \<open>stopTimer\<close>\<close>

definition stopTimer :: "page \<Rightarrow> page" where
  "stopTimer s =
     (let s1 = clearInterval (timerInterval s) s
      in case timerElement s1 of
           None \<Rightarrow> s1
         | Some e \<Rightarrow> (remove (Overlay e) s1)\<lparr>timerElement := None\<rparr>)"

text \<open>\<open>startTimer(durationSeconds)\<close>; \<open>startTime\<close> is the reading of \<open>Date.now()\<close>.\<close>

definition startTimer :: "int \<Rightarrow> int \<Rightarrow> page \<Rightarrow> page" where
  "startTimer duration startTime s =
     (let s1 = stopTimer s;
          e = nextElement s1;
          s2 = s1\<lparr>timerElement := Some e, nextElement := Suc e, overlayText := None\<rparr>;
          s3 = appendChild (Overlay e) s2;
          (i, s4) = schedule (OverlayTask startTime duration) s3
      in s4\<lparr>timerInterval := Some i\<rparr>)"

text \<open>The callback of the overlay's interval. With \<open>timerElement\<close> \<open>null\<close> the assignment
  to \<open>timerElement.textContent\<close> throws and the callback ends without effect.\<close>

definition overlayTick :: "int \<Rightarrow> int \<Rightarrow> int \<Rightarrow> page \<Rightarrow> page" where
  "overlayTick startTime duration now s =
     (let elapsedTime = now - startTime
      in if elapsedTime \<ge> duration then stopTimer s
         else (case timerElement s of
                 None \<Rightarrow> s
               | Some e \<Rightarrow> s\<lparr>overlayText := Some elapsedTime\<rparr>))"

subsection \<open>ResetController: \<open>resetSequence\<close>\<close>

definition resetSequence :: "message \<Rightarrow> page \<Rightarrow> page" where
  "resetSequence msg s =
     (let s1 = clearInterval (cpsUpdateInterval s) s;
          s2 = stopTimer s1
      in s2\<lparr>reloads := Suc (reloads s2), resetLog := resetLog s2 @ [msg]\<rparr>)"

subsection \<open>The click handlers\<close>

text \<open>Zone 1. \<open>now\<close> is the reading stored in \<open>lastClickTimestamp\<close>, \<open>t\<close> the one
  \<open>startTimer\<close> takes.\<close>

definition zone1_click :: "int \<Rightarrow> int \<Rightarrow> page \<Rightarrow> page" where
  "zone1_click now t s =
     (if state s = 0 then
        appendChild Zone2 (remove Zone1
          (startTimer 3500 t (s\<lparr>state := 1, lastClickTimestamp := now\<rparr>)))
      else s)"

text \<open>Zone 2. \<open>now1\<close> is the reading \<open>timeDiff\<close> is computed from, \<open>now2\<close> the one stored
  in \<open>lastClickTimestamp\<close>, \<open>t\<close> the one \<open>startTimer\<close> takes.\<close>

definition zone2_click :: "int \<Rightarrow> int \<Rightarrow> int \<Rightarrow> page \<Rightarrow> page" where
  "zone2_click now1 now2 t s =
     (if state s = 1 then
        (let timeDiff = now1 - lastClickTimestamp s
         in if timeDiff \<ge> 2000 \<and> timeDiff \<le> 3500 then
              appendChild Zone3 (remove Zone2
                (startTimer 4500 t (s\<lparr>state := 2, lastClickTimestamp := now2\<rparr>)))
            else resetSequence (WrongTiming timeDiff) s)
      else s)"

text \<open>The callback of the 3000 ms timeout set on entering state 5.\<close>

definition burstEvaluation :: "page \<Rightarrow> page" where
  "burstEvaluation s =
     (if state s = 5 then
        (let totalClicks = length (clickerTimestamps s)
         in if totalClicks \<ge> 180 then
              (let s1 = s\<lparr>state := 6\<rparr>;
                   s2 = clearInterval (cpsUpdateInterval s1) s1;
                   s3 = stopTimer s2
               in s3\<lparr>zone3Skin := Success, zone3Text := OK, fetchPending := True\<rparr>)
            else resetSequence (TooFewClicks totalClicks) s)
      else s)"

text \<open>The callback of the 100 ms interval set on entering state 5. The arrow function
  passed to \<open>filter\<close> calls \<open>Date.now()\<close> once for every element; \<open>clock k\<close> is the
  reading taken for the element at index \<open>k\<close>.\<close>

definition currentCPS :: "(nat \<Rightarrow> int) \<Rightarrow> int list \<Rightarrow> nat" where
  "currentCPS clock ts =
     length (filter (\<lambda>(k, ts). clock k - ts < 1000) (enumerate 0 ts))"

definition cpsUpdate :: "(nat \<Rightarrow> int) \<Rightarrow> page \<Rightarrow> page" where
  "cpsUpdate clock s = s\<lparr>zone3Text := Count (currentCPS clock (clickerTimestamps s))\<rparr>"

text \<open>Zone 3. \<open>now\<close> is the reading taken on entry, \<open>t\<close> the one \<open>startTimer\<close> takes.\<close>

definition zone3_click :: "int \<Rightarrow> int \<Rightarrow> page \<Rightarrow> page" where
  "zone3_click now t s =
     (if state s = 2 then
        (let timeDiff = now - lastClickTimestamp s
         in if timeDiff \<ge> 3000 \<and> timeDiff \<le> 4500 then
              startTimer 3000 t (s\<lparr>state := 3, lastClickTimestamp := now\<rparr>)
            else resetSequence (BlindTiming timeDiff) s)
      else if state s = 3 then
        (let timeDiff = now - lastClickTimestamp s
         in if timeDiff \<ge> 2000 \<and> timeDiff \<le> 3000 then
              (stopTimer (s\<lparr>state := 4\<rparr>))\<lparr>zone3Skin := Button, zone3Text := START\<rparr>
            else resetSequence (BetweenBlindTiming timeDiff) s)
      else if state s = 4 \<or> state s = 5 then
        (let s1 =
           (if state s = 4 then
              (let a = startTimer 3000 t (s\<lparr>state := 5, clickerTimestamps := []\<rparr>);
                   (h, b) = schedule BurstTask a;
                   (i, c) = schedule CpsTask b
               in c\<lparr>cpsUpdateInterval := Some i\<rparr>)
            else s)
         in if state s1 = 5 then s1\<lparr>clickerTimestamps := clickerTimestamps s1 @ [now]\<rparr>
            else s1)
      else s)"

subsection \<open>ActivationClient: the handlers of the \<open>fetch\<close> promise\<close>

definition truthy :: "jsval \<Rightarrow> bool" where
  "truthy v =
     (case v of
        Undefined \<Rightarrow> False
      | JNull \<Rightarrow> False
      | JBool b \<Rightarrow> b
      | JNum n \<Rightarrow> n \<noteq> 0
      | JStr x \<Rightarrow> x \<noteq> []
      | JArr _ \<Rightarrow> True
      | JObj _ \<Rightarrow> True)"

text \<open>\<open>d.path\<close>: reading a property of \<open>null\<close> or \<open>undefined\<close> throws a TypeError
  (\<open>None\<close>); an object yields the member, where the last of several equal keys counts;
  every other parsed value has no such property.\<close>

definition path_of :: "jsval \<Rightarrow> jsval option" where
  "path_of d =
     (case d of
        Undefined \<Rightarrow> None
      | JNull \<Rightarrow> None
      | JObj kvs \<Rightarrow> (case map_of (rev kvs) ''path'' of None \<Rightarrow> Some Undefined | Some v \<Rightarrow> Some v)
      | _ \<Rightarrow> Some Undefined)"

definition fetchSettled :: "response \<Rightarrow> page \<Rightarrow> page" where
  "fetchSettled r s =
     (case r of
        NetworkError \<Rightarrow> resetSequence CommError s
      | ParseError \<Rightarrow> resetSequence CommError s
      | Parsed d \<Rightarrow>
          (case path_of d of
             None \<Rightarrow> resetSequence CommError s
           | Some p \<Rightarrow> if truthy p then s\<lparr>href := Some p\<rparr> else s))"

subsection \<open>Events\<close>

text \<open>
  One event of the single-threaded queue. A timer event names the handle it fires for and
  reaches its callback only while that handle is in the timer table; a timeout leaves the
  table as it fires. The settling of the request is delivered once, after the request was
  issued. Clicks reach a zone's listener in every state, mounted or not. Events are
  delivered also after \<open>reload()\<close> or a navigation was asked for, as the browser runs the
  script until the document is replaced: what is proved of all runs holds however early
  the page is torn down.
\<close>

datatype event =
    ClickZone1 int int
  | ClickZone2 int int int
  | ClickZone3 int int
  | OverlayFires nat int
  | CpsFires nat "nat \<Rightarrow> int"
  | BurstFires nat
  | FetchSettles response

definition dispatch :: "event \<Rightarrow> page \<Rightarrow> page" where
  "dispatch ev s =
     (case ev of
        ClickZone1 now t \<Rightarrow> zone1_click now t s
      | ClickZone2 now1 now2 t \<Rightarrow> zone2_click now1 now2 t s
      | ClickZone3 now t \<Rightarrow> zone3_click now t s
      | OverlayFires i now \<Rightarrow>
          (case map_of (timers s) i of
             Some (OverlayTask startTime duration) \<Rightarrow> overlayTick startTime duration now s
           | _ \<Rightarrow> s)
      | CpsFires i clock \<Rightarrow>
          (case map_of (timers s) i of
             Some CpsTask \<Rightarrow> cpsUpdate clock s
           | _ \<Rightarrow> s)
      | BurstFires i \<Rightarrow>
          (case map_of (timers s) i of
             Some BurstTask \<Rightarrow> burstEvaluation (clearInterval (Some i) s)
           | _ \<Rightarrow> s)
      | FetchSettles r \<Rightarrow>
          (if fetchPending s then fetchSettled r (s\<lparr>fetchPending := False\<rparr>) else s))"

text \<open>A run of the page: the events in the order of their delivery.\<close>

fun run :: "event list \<Rightarrow> page \<Rightarrow> page" where
  "run [] s = s"
| "run (ev # evs) s = run evs (dispatch ev s)"

subsection \<open>Reference runs\<close>

text \<open>
  The attempt of the end-to-end scenario: zone 1 at 0, zone 2 at 2500, zone 3 at 6000 and
  at 8500, then the click on the START button at 9000. \<open>burst n\<close> is the page after \<open>n\<close>
  further clicks on the button, \<open>succeeded\<close> the page after the timeout found 180 entries.
\<close>

definition stage1 :: page where
  "stage1 = run [ClickZone1 0 0] init"

definition stage2 :: page where
  "stage2 = run [ClickZone2 2500 2500 2500] stage1"

definition stage3 :: page where
  "stage3 = run [ClickZone3 6000 6000] stage2"

definition armed :: page where
  "armed = run [ClickZone3 8500 8500] stage3"

definition bursting :: page where
  "bursting = run [ClickZone3 9000 9000] armed"

definition burst :: "nat \<Rightarrow> page" where
  "burst n = run (replicate n (ClickZone3 9001 9001)) bursting"

definition succeeded :: page where
  "succeeded = run [BurstFires 5] (burst 179)"

subsection \<open>Consistency of the timer table and the page\<close>

text \<open>
  What holds of every page a run can reach. Every overlay callback in the timer table has
  the handle stored in \<open>timerInterval\<close>, every rate callback the handle stored in
  \<open>cpsUpdateInterval\<close>; rate callback and burst timeout exist only in state 5; every
  overlay element below \<open>body\<close> is the one \<open>timerElement\<close> refers to; there is at most
  one burst timeout, one overlay callback and one overlay element; a request is pending
  only in state 6.
\<close>

definition is_overlay :: "node \<Rightarrow> bool" where
  "is_overlay n = (case n of Overlay _ \<Rightarrow> True | _ \<Rightarrow> False)"

definition is_overlay_task :: "nat \<times> task \<Rightarrow> bool" where
  "is_overlay_task e = (case snd e of OverlayTask _ _ \<Rightarrow> True | _ \<Rightarrow> False)"

definition is_burst_task :: "nat \<times> task \<Rightarrow> bool" where
  "is_burst_task e = (snd e = BurstTask)"

definition task_ok :: "nat option \<Rightarrow> nat option \<Rightarrow> nat \<Rightarrow> nat \<times> task \<Rightarrow> bool" where
  "task_ok ti ci st e =
     (case snd e of
        OverlayTask _ _ \<Rightarrow> ti = Some (fst e)
      | CpsTask \<Rightarrow> ci = Some (fst e) \<and> st = 5
      | BurstTask \<Rightarrow> st = 5)"

definition node_ok :: "nat option \<Rightarrow> node \<Rightarrow> bool" where
  "node_ok te n = (case n of Overlay k \<Rightarrow> te = Some k | _ \<Rightarrow> True)"

definition consistent :: "page \<Rightarrow> bool" where
  "consistent s \<longleftrightarrow>
     list_all (task_ok (timerInterval s) (cpsUpdateInterval s) (state s)) (timers s)
   \<and> list_all (node_ok (timerElement s)) (body s)
   \<and> length (filter is_burst_task (timers s)) \<le> 1
   \<and> length (filter is_overlay_task (timers s)) \<le> 1
   \<and> length (filter is_overlay (body s)) \<le> 1
   \<and> (fetchPending s \<longrightarrow> state s = 6)"

section \<open>What the primitives leave alone\<close>

lemma clearInterval_frame [simp]:
  "state (clearInterval h s) = state s"
  "lastClickTimestamp (clearInterval h s) = lastClickTimestamp s"
  "clickerTimestamps (clearInterval h s) = clickerTimestamps s"
  "cpsUpdateInterval (clearInterval h s) = cpsUpdateInterval s"
  "timerInterval (clearInterval h s) = timerInterval s"
  "timerElement (clearInterval h s) = timerElement s"
  "body (clearInterval h s) = body s"
  "fetchPending (clearInterval h s) = fetchPending s"
  "reloads (clearInterval h s) = reloads s"
  "href (clearInterval h s) = href s"
  "resetLog (clearInterval h s) = resetLog s"
  "zone3Skin (clearInterval h s) = zone3Skin s"
  "zone3Text (clearInterval h s) = zone3Text s"
  by (simp_all add: clearInterval_def split: option.splits)

lemma timers_clearInterval:
  "timers (clearInterval h s) =
     (case h of None \<Rightarrow> timers s | Some i \<Rightarrow> filter (\<lambda>e. fst e \<noteq> i) (timers s))"
  by (simp add: clearInterval_def split: option.splits)

lemma stopTimer_frame [simp]:
  "state (stopTimer s) = state s"
  "lastClickTimestamp (stopTimer s) = lastClickTimestamp s"
  "clickerTimestamps (stopTimer s) = clickerTimestamps s"
  "cpsUpdateInterval (stopTimer s) = cpsUpdateInterval s"
  "timerInterval (stopTimer s) = timerInterval s"
  "timerElement (stopTimer s) = None"
  "fetchPending (stopTimer s) = fetchPending s"
  "reloads (stopTimer s) = reloads s"
  "href (stopTimer s) = href s"
  "resetLog (stopTimer s) = resetLog s"
  "zone3Skin (stopTimer s) = zone3Skin s"
  "zone3Text (stopTimer s) = zone3Text s"
  by (simp_all add: stopTimer_def remove_def Let_def split: option.splits)

lemma timers_stopTimer:
  "timers (stopTimer s) =
     (case timerInterval s of None \<Rightarrow> timers s | Some i \<Rightarrow> filter (\<lambda>e. fst e \<noteq> i) (timers s))"
  by (simp add: stopTimer_def remove_def Let_def timers_clearInterval split: option.splits)

lemma body_stopTimer:
  "body (stopTimer s) =
     (case timerElement s of None \<Rightarrow> body s | Some e \<Rightarrow> removeAll (Overlay e) (body s))"
  by (simp add: stopTimer_def remove_def Let_def split: option.splits)

lemma startTimer_frame [simp]:
  "state (startTimer d t s) = state s"
  "lastClickTimestamp (startTimer d t s) = lastClickTimestamp s"
  "clickerTimestamps (startTimer d t s) = clickerTimestamps s"
  "cpsUpdateInterval (startTimer d t s) = cpsUpdateInterval s"
  "fetchPending (startTimer d t s) = fetchPending s"
  "reloads (startTimer d t s) = reloads s"
  "href (startTimer d t s) = href s"
  "resetLog (startTimer d t s) = resetLog s"
  "zone3Skin (startTimer d t s) = zone3Skin s"
  "zone3Text (startTimer d t s) = zone3Text s"
  by (simp_all add: startTimer_def schedule_def appendChild_def Let_def)

lemma resetSequence_frame [simp]:
  "state (resetSequence m s) = state s"
  "lastClickTimestamp (resetSequence m s) = lastClickTimestamp s"
  "clickerTimestamps (resetSequence m s) = clickerTimestamps s"
  "cpsUpdateInterval (resetSequence m s) = cpsUpdateInterval s"
  "timerInterval (resetSequence m s) = timerInterval s"
  "timerElement (resetSequence m s) = None"
  "fetchPending (resetSequence m s) = fetchPending s"
  "reloads (resetSequence m s) = Suc (reloads s)"
  "href (resetSequence m s) = href s"
  "resetLog (resetSequence m s) = resetLog s @ [m]"
  "zone3Skin (resetSequence m s) = zone3Skin s"
  "zone3Text (resetSequence m s) = zone3Text s"
  by (simp_all add: resetSequence_def Let_def)

section \<open>The reference runs, evaluated\<close>

lemmas handler_defs =
  clearInterval_def schedule_def remove_def appendChild_def stopTimer_def startTimer_def
  overlayTick_def resetSequence_def zone1_click_def zone2_click_def zone3_click_def
  burstEvaluation_def cpsUpdate_def dispatch_def fetchSettled_def

lemma stage1_eq:
  "stage1 = \<lparr> state = 1, lastClickTimestamp = 0, clickerTimestamps = [],
      cpsUpdateInterval = None, timerInterval = Some 1, timerElement = Some 0,
      body = [Overlay 0, Zone2], overlayText = None, zone3Skin = Plain, zone3Text = NoText,
      timers = [(1, OverlayTask 0 3500)], nextId = 2, nextElement = 1, fetchPending = False,
      reloads = 0, href = None, resetLog = [] \<rparr>"
  by (simp add: stage1_def init_def handler_defs Let_def)

lemma stage2_eq:
  "stage2 = \<lparr> state = 2, lastClickTimestamp = 2500, clickerTimestamps = [],
      cpsUpdateInterval = None, timerInterval = Some 2, timerElement = Some 1,
      body = [Overlay 1, Zone3], overlayText = None, zone3Skin = Plain, zone3Text = NoText,
      timers = [(2, OverlayTask 2500 4500)], nextId = 3, nextElement = 2, fetchPending = False,
      reloads = 0, href = None, resetLog = [] \<rparr>"
  by (simp add: stage2_def stage1_eq handler_defs Let_def)

lemma stage3_eq:
  "stage3 = \<lparr> state = 3, lastClickTimestamp = 6000, clickerTimestamps = [],
      cpsUpdateInterval = None, timerInterval = Some 3, timerElement = Some 2,
      body = [Zone3, Overlay 2], overlayText = None, zone3Skin = Plain, zone3Text = NoText,
      timers = [(3, OverlayTask 6000 3000)], nextId = 4, nextElement = 3, fetchPending = False,
      reloads = 0, href = None, resetLog = [] \<rparr>"
  by (simp add: stage3_def stage2_eq handler_defs Let_def)

lemma armed_eq:
  "armed = \<lparr> state = 4, lastClickTimestamp = 6000, clickerTimestamps = [],
      cpsUpdateInterval = None, timerInterval = Some 3, timerElement = None,
      body = [Zone3], overlayText = None, zone3Skin = Button, zone3Text = START,
      timers = [], nextId = 4, nextElement = 3, fetchPending = False,
      reloads = 0, href = None, resetLog = [] \<rparr>"
  by (simp add: armed_def stage3_eq handler_defs Let_def)

lemma bursting_eq:
  "bursting = \<lparr> state = 5, lastClickTimestamp = 6000, clickerTimestamps = [9000],
      cpsUpdateInterval = Some 6, timerInterval = Some 4, timerElement = Some 3,
      body = [Zone3, Overlay 3], overlayText = None, zone3Skin = Button, zone3Text = START,
      timers = [(4, OverlayTask 9000 3000), (5, BurstTask), (6, CpsTask)],
      nextId = 7, nextElement = 4, fetchPending = False,
      reloads = 0, href = None, resetLog = [] \<rparr>"
  by (simp add: bursting_def armed_eq handler_defs Let_def)

text \<open>In state 5 a click on zone 3 only appends its time stamp.\<close>

lemma zone3_click_bursting:
  "state s = 5 \<Longrightarrow> zone3_click now t s = s\<lparr>clickerTimestamps := clickerTimestamps s @ [now]\<rparr>"
  by (simp add: zone3_click_def)

lemma run_burst_clicks:
  "state s = 5 \<Longrightarrow>
   run (map (\<lambda>c. ClickZone3 (fst c) (snd c)) cs) s =
     s\<lparr>clickerTimestamps := clickerTimestamps s @ map fst cs\<rparr>"
proof (induction cs arbitrary: s)
  case Nil
  then show ?case by simp
next
  case (Cons c cs)
  let ?s = "s\<lparr>clickerTimestamps := clickerTimestamps s @ [fst c]\<rparr>"
  have step: "dispatch (ClickZone3 (fst c) (snd c)) s = ?s"
    using Cons.prems by (simp add: dispatch_def zone3_click_bursting)
  have "state ?s = 5"
    using Cons.prems by simp
  from Cons.IH [OF this] step show ?case
    by simp
qed

lemma burst_eq:
  "burst n = bursting\<lparr>clickerTimestamps := 9000 # replicate n 9001\<rparr>"
proof -
  have "replicate n (ClickZone3 9001 9001) =
        map (\<lambda>c. ClickZone3 (fst c) (snd c)) (replicate n (9001, 9001))"
    by simp
  moreover have "state bursting = 5"
    by (simp add: bursting_eq)
  ultimately show ?thesis
    unfolding burst_def by (simp only: run_burst_clicks) (simp add: bursting_eq)
qed

lemma succeeded_eq:
  "succeeded = \<lparr> state = 6, lastClickTimestamp = 6000,
      clickerTimestamps = 9000 # replicate 179 9001,
      cpsUpdateInterval = Some 6, timerInterval = Some 4, timerElement = None,
      body = [Zone3], overlayText = None, zone3Skin = Success, zone3Text = OK,
      timers = [], nextId = 7, nextElement = 4, fetchPending = True,
      reloads = 0, href = None, resetLog = [] \<rparr>"
  by (simp add: succeeded_def burst_eq bursting_eq handler_defs Let_def)

section \<open>The arming click\<close>

text \<open>
  C1 says that the click on zone 3 in state 4 clears the click buffer and does not append
  its own time stamp, so that the buffer is empty right after the transition and the
  arming click adds nothing to the tally. The handler sets state 5 and then runs its
  \<open>if (state === 5)\<close> branch in the same call: in the reference run the buffer has one
  entry after the arming click.
\<close>

theorem arming_click_leaves_buffer_nonempty:
  "\<not> (state armed = 4 \<longrightarrow> length (clickerTimestamps (zone3_click 9000 9000 armed)) = 0)"
  by (simp add: armed_eq handler_defs Let_def)

text \<open>
  C1 as amended: the click on zone 3 in state 4 sets state 5, clears the click buffer and
  then appends its own time stamp, so the buffer is \<open>[now]\<close> right after the transition
  and the arming click is the first entry of the tally, before those of the clicks that
  follow.
\<close>

theorem arming_click_is_counted:
  assumes "state s = 4"
  shows "state (zone3_click now t s) = 5
       \<and> clickerTimestamps (zone3_click now t s) = [now]
       \<and> clickerTimestamps (run (map (\<lambda>c. ClickZone3 (fst c) (snd c)) cs) (zone3_click now t s))
           = now # map fst cs"
proof -
  have a: "state (zone3_click now t s) = 5"
    and b: "clickerTimestamps (zone3_click now t s) = [now]"
    using assms by (simp_all add: zone3_click_def schedule_def Let_def)
  from run_burst_clicks [OF a] b have
    "clickerTimestamps (run (map (\<lambda>c. ClickZone3 (fst c) (snd c)) cs) (zone3_click now t s))
       = now # map fst cs"
    by simp
  with a b show ?thesis by simp
qed

theorem arming_click_is_counted_witness:
  "state armed = 4
   \<and> state (zone3_click 9000 9000 armed) = 5
   \<and> clickerTimestamps (zone3_click 9000 9000 armed) = [9000]
   \<and> clickerTimestamps (run [ClickZone3 9001 9001, ClickZone3 9002 9002] (zone3_click 9000 9000 armed))
        = [9000, 9001, 9002]"
proof -
  have h: "state armed = 4"
    by (simp add: armed_eq)
  from arming_click_is_counted [OF h, of 9000 9000 "[(9001, 9001), (9002, 9002)]"] h
  show ?thesis by simp
qed

section \<open>Timing windows\<close>

text \<open>
  C2: each of the three timed transitions (state 1 to 2 within [2000, 3500] ms, state 2
  to 3 within [3000, 4500] ms, state 3 to 4 within [2000, 3000] ms) advances when the time
  since the last accepted click lies in the closed window, both ends included, and calls
  \<open>resetSequence\<close> when it lies below the minimum or above the maximum; the click is
  never ignored.
\<close>

theorem timing_windows_inclusive:
  "(state s = 1 \<longrightarrow>
      (let d = now1 - lastClickTimestamp s; s' = zone2_click now1 now2 t s
       in if 2000 \<le> d \<and> d \<le> 3500
          then state s' = 2 \<and> lastClickTimestamp s' = now2
             \<and> reloads s' = reloads s \<and> resetLog s' = resetLog s
          else s' = resetSequence (WrongTiming d) s \<and> reloads s' = Suc (reloads s)))
 \<and> (state s = 2 \<longrightarrow>
      (let d = now - lastClickTimestamp s; s' = zone3_click now t s
       in if 3000 \<le> d \<and> d \<le> 4500
          then state s' = 3 \<and> lastClickTimestamp s' = now
             \<and> reloads s' = reloads s \<and> resetLog s' = resetLog s
          else s' = resetSequence (BlindTiming d) s \<and> reloads s' = Suc (reloads s)))
 \<and> (state s = 3 \<longrightarrow>
      (let d = now - lastClickTimestamp s; s' = zone3_click now t s
       in if 2000 \<le> d \<and> d \<le> 3000
          then state s' = 4 \<and> reloads s' = reloads s \<and> resetLog s' = resetLog s
          else s' = resetSequence (BetweenBlindTiming d) s \<and> reloads s' = Suc (reloads s)))"
  by (simp add: zone2_click_def zone3_click_def Let_def remove_def appendChild_def)

lemma stage_facts:
  "state stage1 = 1" "lastClickTimestamp stage1 = 0" "reloads stage1 = 0"
  "state stage2 = 2" "lastClickTimestamp stage2 = 2500" "reloads stage2 = 0"
  "state stage3 = 3" "lastClickTimestamp stage3 = 6000" "reloads stage3 = 0"
  by (simp_all add: stage1_eq stage2_eq stage3_eq)

theorem timing_windows_inclusive_witness:
  "state (zone2_click 2000 2000 2000 stage1) = 2
 \<and> state (zone2_click 3500 3500 3500 stage1) = 2
 \<and> reloads (zone2_click 1999 1999 1999 stage1) = 1
 \<and> reloads (zone2_click 3501 3501 3501 stage1) = 1
 \<and> state (zone3_click 5500 5500 stage2) = 3
 \<and> state (zone3_click 7000 7000 stage2) = 3
 \<and> reloads (zone3_click 5499 5499 stage2) = 1
 \<and> reloads (zone3_click 7001 7001 stage2) = 1
 \<and> state (zone3_click 8000 8000 stage3) = 4
 \<and> state (zone3_click 9000 9000 stage3) = 4
 \<and> reloads (zone3_click 7999 7999 stage3) = 1
 \<and> reloads (zone3_click 9001 9001 stage3) = 1"
  using timing_windows_inclusive [where s = stage1 and ?now1.0 = 2000 and ?now2.0 = 2000 and t = 2000]
        timing_windows_inclusive [where s = stage1 and ?now1.0 = 3500 and ?now2.0 = 3500 and t = 3500]
        timing_windows_inclusive [where s = stage1 and ?now1.0 = 1999 and ?now2.0 = 1999 and t = 1999]
        timing_windows_inclusive [where s = stage1 and ?now1.0 = 3501 and ?now2.0 = 3501 and t = 3501]
        timing_windows_inclusive [where s = stage2 and now = 5500 and t = 5500]
        timing_windows_inclusive [where s = stage2 and now = 7000 and t = 7000]
        timing_windows_inclusive [where s = stage2 and now = 5499 and t = 5499]
        timing_windows_inclusive [where s = stage2 and now = 7001 and t = 7001]
        timing_windows_inclusive [where s = stage3 and now = 8000 and t = 8000]
        timing_windows_inclusive [where s = stage3 and now = 9000 and t = 9000]
        timing_windows_inclusive [where s = stage3 and now = 7999 and t = 7999]
        timing_windows_inclusive [where s = stage3 and now = 9001 and t = 9001]
  by (simp add: stage_facts Let_def)

section \<open>Clicks that do not match the state\<close>

text \<open>
  C10: a click on a zone whose handler does not expect the current state changes nothing
  at all: no module variable, no entry of the click buffer, no timer, and no call of
  \<open>resetSequence\<close>. This holds for zone 1 outside state 0, for zone 2 outside state 1,
  and for zone 3 outside states 2 to 5 (so in state 6, and in states 0 and 1).
\<close>

theorem unmatched_click_is_noop:
  "(state s \<noteq> 0 \<longrightarrow> zone1_click now t s = s)
 \<and> (state s \<noteq> 1 \<longrightarrow> zone2_click now1 now2 t s = s)
 \<and> (state s \<notin> {2, 3, 4, 5} \<longrightarrow> zone3_click now t s = s)"
  by (simp add: zone1_click_def zone2_click_def zone3_click_def)

theorem unmatched_click_is_noop_witness:
  "state stage1 \<noteq> 0 \<and> zone1_click 100 100 stage1 = stage1
 \<and> state stage2 \<noteq> 1 \<and> zone2_click 2600 2600 2600 stage2 = stage2
 \<and> state succeeded \<notin> {2, 3, 4, 5} \<and> zone3_click 12001 12001 succeeded = succeeded"
proof -
  have h: "state stage1 \<noteq> 0" "state stage2 \<noteq> 1" "state succeeded \<notin> {2, 3, 4, 5}"
    by (simp_all add: stage_facts succeeded_eq)
  from unmatched_click_is_noop [where s = stage1 and now = 100 and t = 100]
       unmatched_click_is_noop [where s = stage2 and ?now1.0 = 2600 and ?now2.0 = 2600 and t = 2600]
       unmatched_click_is_noop [where s = succeeded and now = 12001 and t = 12001] h
  show ?thesis by simp
qed

section \<open>The deferred burst evaluation\<close>

text \<open>
  C3: when the timeout's callback runs in state 5 it succeeds exactly when the click
  buffer has at least 180 entries. Then it sets state 6, cancels the rate interval and
  the overlay (interval and element), turns the button into the success indicator and
  issues the request. With 179 entries or fewer it calls \<open>resetSequence\<close>; the message
  interpolates the number of clicks counted (\<open>n/180\<close>).
\<close>

theorem burst_threshold_180:
  assumes "state s = 5"
  shows "(let n = length (clickerTimestamps s); s' = burstEvaluation s
          in if 180 \<le> n
             then state s' = 6 \<and> fetchPending s'
                \<and> timerElement s' = None
                \<and> body s' = (case timerElement s of
                               None \<Rightarrow> body s
                             | Some k \<Rightarrow> removeAll (Overlay k) (body s))
                \<and> timers s' = filter (\<lambda>e. Some (fst e) \<noteq> cpsUpdateInterval s
                                          \<and> Some (fst e) \<noteq> timerInterval s) (timers s)
                \<and> zone3Skin s' = Success \<and> zone3Text s' = OK
                \<and> reloads s' = reloads s \<and> resetLog s' = resetLog s
             else s' = resetSequence (TooFewClicks n) s
                \<and> reloads s' = Suc (reloads s)
                \<and> resetLog s' = resetLog s @ [TooFewClicks n])"
proof -
  have flt: "\<And>a b xs. filter (\<lambda>e. fst e \<noteq> a) (filter (\<lambda>e. fst e \<noteq> b) xs)
               = filter (\<lambda>e::nat \<times> task. Some (fst e) \<noteq> Some b \<and> Some (fst e) \<noteq> Some a) xs"
    by (simp add: conj_commute)
  show ?thesis
    using assms
    by (cases "cpsUpdateInterval s"; cases "timerInterval s"; cases "timerElement s")
       (simp_all add: burstEvaluation_def Let_def stopTimer_def clearInterval_def remove_def flt)
qed

lemma burst_facts:
  "state (burst n) = 5"
  "length (clickerTimestamps (burst n)) = Suc n"
  "reloads (burst n) = 0"
  "resetLog (burst n) = []"
  by (simp_all add: burst_eq bursting_eq)

theorem burst_threshold_180_witness:
  "state (burst 179) = 5 \<and> length (clickerTimestamps (burst 179)) = 180
 \<and> state (burstEvaluation (burst 179)) = 6
 \<and> fetchPending (burstEvaluation (burst 179))
 \<and> reloads (burstEvaluation (burst 179)) = 0
 \<and> state (burst 178) = 5 \<and> length (clickerTimestamps (burst 178)) = 179
 \<and> reloads (burstEvaluation (burst 178)) = 1
 \<and> resetLog (burstEvaluation (burst 178)) = [TooFewClicks 179]"
proof -
  have h: "state (burst 179) = 5" "state (burst 178) = 5"
    by (simp_all add: burst_facts)
  from burst_threshold_180 [OF h(1)] burst_threshold_180 [OF h(2)]
  show ?thesis by (simp add: burst_facts Let_def)
qed

text \<open>
  C6: the callback of the timeout reads the state when it runs and decides between
  success and failure only in state 5. In any other state it changes nothing; the firing
  itself only takes the timeout out of the window's timer table.
\<close>

theorem burst_evaluation_rechecks_state:
  assumes "state s \<noteq> 5"
  shows "burstEvaluation s = s
       \<and> (map_of (timers s) i = Some BurstTask \<longrightarrow>
            dispatch (BurstFires i) s = s\<lparr>timers := filter (\<lambda>e. fst e \<noteq> i) (timers s)\<rparr>)"
  using assms by (simp add: burstEvaluation_def dispatch_def clearInterval_def)

theorem burst_evaluation_rechecks_state_witness:
  "state armed \<noteq> 5 \<and> burstEvaluation armed = armed
 \<and> state (bursting\<lparr>state := 0\<rparr>) \<noteq> 5
 \<and> map_of (timers (bursting\<lparr>state := 0\<rparr>)) 5 = Some BurstTask
 \<and> dispatch (BurstFires 5) (bursting\<lparr>state := 0\<rparr>) =
     bursting\<lparr>state := 0, timers := [(4, OverlayTask 9000 3000), (6, CpsTask)]\<rparr>"
proof -
  have h: "state armed \<noteq> 5" "state (bursting\<lparr>state := 0\<rparr>) \<noteq> 5"
    by (simp_all add: armed_eq)
  from burst_evaluation_rechecks_state [OF h(1)]
       burst_evaluation_rechecks_state [OF h(2), of 5] h
  show ?thesis by (simp add: bursting_eq)
qed

section \<open>The rate display\<close>

text \<open>The count over a clock that shows the same reading for every element of the buffer.\<close>

lemma currentCPS_steady_clock:
  assumes "\<forall>k<length ts. clock k = now"
  shows "currentCPS clock ts = length (filter (\<lambda>x. now - x < 1000) ts)"
proof -
  have "\<forall>k. n \<le> k \<and> k < n + length ts \<longrightarrow> clock k = now \<Longrightarrow>
        length (filter (\<lambda>(k, x). clock k - x < 1000) (enumerate n ts))
          = length (filter (\<lambda>x. now - x < 1000) ts)" for n
  proof (induction ts arbitrary: n)
    case Nil
    then show ?case by simp
  next
    case (Cons a ts)
    have here: "clock n = now"
      using Cons.prems by simp
    have "length (filter (\<lambda>(k, x). clock k - x < 1000) (enumerate (Suc n) ts))
            = length (filter (\<lambda>x. now - x < 1000) ts)"
      using Cons.prems by (intro Cons.IH) auto
    with here show ?case by simp
  qed
  from this [of 0] assms show ?thesis
    by (simp add: currentCPS_def)
qed

text \<open>
  C9: at a tick of the rate interval the text of zone 3 becomes the number of entries of
  the click buffer with \<open>now - timestamp < 1000\<close>, where \<open>now\<close> is the time of the tick
  (every reading of the clock during the tick shows \<open>now\<close>); the tick changes neither the
  click buffer nor the state, nor anything else but that text.
\<close>

theorem rate_display_counts_trailing_second:
  assumes "\<forall>k<length (clickerTimestamps s). clock k = now"
  shows "cpsUpdate clock s =
           s\<lparr>zone3Text := Count (length (filter (\<lambda>x. now - x < 1000) (clickerTimestamps s)))\<rparr>
       \<and> clickerTimestamps (cpsUpdate clock s) = clickerTimestamps s
       \<and> state (cpsUpdate clock s) = state s
       \<and> (map_of (timers s) i = Some CpsTask \<longrightarrow>
            dispatch (CpsFires i clock) s = cpsUpdate clock s)"
  using currentCPS_steady_clock [OF assms]
  by (simp add: cpsUpdate_def dispatch_def)

theorem rate_display_counts_trailing_second_witness:
  "map_of (timers (bursting\<lparr>clickerTimestamps := [9000, 9100, 9200, 10000]\<rparr>)) 6 = Some CpsTask
 \<and> zone3Text (dispatch (CpsFires 6 (\<lambda>_. 10000))
       (bursting\<lparr>clickerTimestamps := [9000, 9100, 9200, 10000]\<rparr>)) = Count 3
 \<and> clickerTimestamps (dispatch (CpsFires 6 (\<lambda>_. 10000))
       (bursting\<lparr>clickerTimestamps := [9000, 9100, 9200, 10000]\<rparr>)) = [9000, 9100, 9200, 10000]
 \<and> state (dispatch (CpsFires 6 (\<lambda>_. 10000))
       (bursting\<lparr>clickerTimestamps := [9000, 9100, 9200, 10000]\<rparr>)) = 5"
proof -
  let ?s = "bursting\<lparr>clickerTimestamps := [9000, 9100, 9200, 10000]\<rparr>"
  have h: "\<forall>k<length (clickerTimestamps ?s). (\<lambda>_. 10000) k = (10000::int)"
    by simp
  have m: "map_of (timers ?s) 6 = Some CpsTask" "state ?s = 5"
    by (simp_all add: bursting_eq)
  from rate_display_counts_trailing_second [OF h, of 6] m h
  show ?thesis by simp
qed

section \<open>The state only grows\<close>

lemma dispatch_state_step:
  "state (dispatch ev s) = state s \<or> (state (dispatch ev s) = Suc (state s) \<and> state s \<le> 5)"
  by (cases ev)
     (auto simp: dispatch_def zone1_click_def zone2_click_def zone3_click_def
        burstEvaluation_def cpsUpdate_def overlayTick_def fetchSettled_def remove_def
        appendChild_def schedule_def Let_def
      split: option.splits task.splits response.splits prod.splits)

lemma run_state_mono:
  "state s \<le> state (run evs s)"
proof (induction evs arbitrary: s)
  case Nil
  show ?case by simp
next
  case (Cons ev evs)
  have "state s \<le> state (dispatch ev s)"
    using dispatch_state_step [of ev s] by auto
  also have "\<dots> \<le> state (run evs (dispatch ev s))"
    by (rule Cons.IH)
  finally show ?case by simp
qed

lemma run_state_bound:
  "state s \<le> 6 \<Longrightarrow> state (run evs s) \<le> 6"
proof (induction evs arbitrary: s)
  case Nil
  then show ?case by simp
next
  case (Cons ev evs)
  have "state (dispatch ev s) \<le> 6"
    using dispatch_state_step [of ev s] Cons.prems by auto
  from Cons.IH [OF this] show ?case by simp
qed

text \<open>
  C7: within one page lifetime the variable \<open>state\<close> never decreases. Every event leaves
  it as it is or raises it by exactly one, from a value of at most 5, so it climbs
  0, 1, ..., 6 and stays within 0..6; \<open>resetSequence\<close> does not write it (the return to 0
  is the reload, which builds a new page).
\<close>

theorem stage_never_decreases:
  "state s \<le> state (run evs s)
 \<and> (state (dispatch ev s) = state s \<or> (state (dispatch ev s) = Suc (state s) \<and> state s \<le> 5))
 \<and> state (resetSequence msg s) = state s
 \<and> state (run evs init) \<le> 6"
proof -
  have "state init \<le> 6"
    by (simp add: init_def)
  from run_state_bound [OF this] run_state_mono [of s evs] dispatch_state_step [of ev s]
  show ?thesis by simp
qed

theorem stage_never_decreases_witness:
  "state stage1 \<le> state (run [ClickZone2 1999 1999 1999, ClickZone2 2500 2500 2500] stage1)
 \<and> state (resetSequence (WrongTiming 1999) stage1) = state stage1
 \<and> state (run [ClickZone1 0 0, ClickZone2 1999 1999 1999] init) \<le> 6"
  using stage_never_decreases [of stage1 "[ClickZone2 1999 1999 1999, ClickZone2 2500 2500 2500]" _
          "WrongTiming 1999"]
        stage_never_decreases [of _ "[ClickZone1 0 0, ClickZone2 1999 1999 1999]"]
  by simp

section \<open>The answer of the verification request\<close>

text \<open>
  C4 says that a response without the navigation target is handled like a network or
  parse error, by a call of \<open>resetSequence\<close>, so that no response leaves the page idle in
  state 6. The handler \<open>d => { if (d.path) window.location.href = d.path; }\<close> has no
  else branch: for the body \<open>{}\<close> the page of the reference run stays in state 6, with
  no reload, no navigation and no timer left, while a network error at the same point
  reloads it.
\<close>

theorem missing_path_leaves_page_idle:
  "state succeeded = 6 \<and> fetchPending succeeded
 \<and> dispatch (FetchSettles (Parsed (JObj []))) succeeded = succeeded\<lparr>fetchPending := False\<rparr>
 \<and> state (dispatch (FetchSettles (Parsed (JObj []))) succeeded) = 6
 \<and> reloads (dispatch (FetchSettles (Parsed (JObj []))) succeeded) = 0
 \<and> resetLog (dispatch (FetchSettles (Parsed (JObj []))) succeeded) = []
 \<and> href (dispatch (FetchSettles (Parsed (JObj []))) succeeded) = None
 \<and> timers (dispatch (FetchSettles (Parsed (JObj []))) succeeded) = []
 \<and> reloads (dispatch (FetchSettles NetworkError) succeeded) = 1
 \<and> resetLog (dispatch (FetchSettles NetworkError) succeeded) = [CommError]"
  by (simp add: succeeded_eq dispatch_def fetchSettled_def path_of_def truthy_def)

section \<open>Consistency is kept by every event\<close>

lemma filter_singleton:
  "length (filter P xs) \<le> 1 \<Longrightarrow> x \<in> set xs \<Longrightarrow> P x \<Longrightarrow> filter P xs = [x]"
proof (induction xs)
  case Nil then show ?case by simp
next
  case (Cons a xs)
  show ?case
  proof (cases "P a")
    case True
    with Cons.prems have e: "filter P xs = []" by simp
    with Cons.prems True have "x = a" by (auto simp: filter_empty_conv)
    with True e show ?thesis by simp
  next
    case False
    with Cons show ?thesis by auto
  qed
qed

lemma length_filter_filter: "length (filter P (filter Q xs)) \<le> length (filter P xs)"
  by (induction xs) auto

lemma list_all_filter: "list_all P xs \<Longrightarrow> list_all P (filter Q xs)"
  by (simp add: list_all_iff)

lemma filter_removeAll_empty: "filter P xs = [] \<Longrightarrow> filter P (removeAll x xs) = []"
  by (simp add: filter_empty_conv)

lemma filter_removeAll_other: "\<not> P x \<Longrightarrow> filter P (removeAll x xs) = filter P xs"
  by (induction xs) auto

lemma list_all_removeAll: "list_all P xs \<Longrightarrow> list_all P (removeAll x xs)"
  by (simp add: list_all_iff)

lemma burst_count_filter:
  "length (filter P xs) \<le> n \<Longrightarrow> length (filter P (filter Q xs)) \<le> n"
  using length_filter_filter [of P Q xs] by simp

lemma consistentI:
  assumes "list_all (task_ok (timerInterval s) (cpsUpdateInterval s) (state s)) (timers s)"
    and "list_all (node_ok (timerElement s)) (body s)"
    and "length (filter is_burst_task (timers s)) \<le> 1"
    and "length (filter is_overlay_task (timers s)) \<le> 1"
    and "length (filter is_overlay (body s)) \<le> 1"
    and "fetchPending s \<Longrightarrow> state s = 6"
  shows "consistent s"
  using assms unfolding consistent_def by blast

lemma consistentD:
  assumes "consistent s"
  shows "list_all (task_ok (timerInterval s) (cpsUpdateInterval s) (state s)) (timers s)"
    and "list_all (node_ok (timerElement s)) (body s)"
    and "length (filter is_burst_task (timers s)) \<le> 1"
    and "length (filter is_overlay_task (timers s)) \<le> 1"
    and "length (filter is_overlay (body s)) \<le> 1"
    and "fetchPending s \<Longrightarrow> state s = 6"
  using assms unfolding consistent_def by blast+

lemma timers_clearInterval_cases:
  "timers (clearInterval h s) = timers s \<or> (\<exists>i. timers (clearInterval h s) = filter (\<lambda>e. fst e \<noteq> i) (timers s))"
  by (cases h) (auto simp: timers_clearInterval)

lemma timers_stopTimer_cases:
  "timers (stopTimer s) = timers s \<or> (\<exists>i. timers (stopTimer s) = filter (\<lambda>e. fst e \<noteq> i) (timers s))"
  by (cases "timerInterval s") (auto simp: timers_stopTimer)

lemma consistent_clearInterval:
  assumes "consistent s"
  shows "consistent (clearInterval h s)"
proof (rule consistentI)
  note d = consistentD [OF assms]
  show "list_all (task_ok (timerInterval (clearInterval h s)) (cpsUpdateInterval (clearInterval h s))
          (state (clearInterval h s))) (timers (clearInterval h s))"
    using timers_clearInterval_cases [of h s] d(1) by (auto simp del: filter_filter intro: list_all_filter)
  show "list_all (node_ok (timerElement (clearInterval h s))) (body (clearInterval h s))"
    using d(2) by simp
  show "length (filter is_burst_task (timers (clearInterval h s))) \<le> 1"
    using timers_clearInterval_cases [of h s] d(3) by (auto simp del: filter_filter intro: burst_count_filter)
  show "length (filter is_overlay_task (timers (clearInterval h s))) \<le> 1"
    using timers_clearInterval_cases [of h s] d(4) by (auto simp del: filter_filter intro: burst_count_filter)
  show "length (filter is_overlay (body (clearInterval h s))) \<le> 1"
    using d(5) by simp
  show "fetchPending (clearInterval h s) \<Longrightarrow> state (clearInterval h s) = 6"
    using d(6) by simp
qed

lemma no_overlay_task_after_clear:
  "list_all (task_ok ti ci st) xs \<Longrightarrow>
   filter is_overlay_task (case ti of None \<Rightarrow> xs | Some i \<Rightarrow> filter (\<lambda>e. fst e \<noteq> i) xs) = []"
  by (cases ti) (auto simp: list_all_iff task_ok_def is_overlay_task_def filter_empty_conv split: task.splits)

lemma no_overlay_node_after_remove:
  "list_all (node_ok te) xs \<Longrightarrow>
   filter is_overlay (case te of None \<Rightarrow> xs | Some k \<Rightarrow> removeAll (Overlay k) xs) = []"
  by (cases te) (auto simp: list_all_iff node_ok_def is_overlay_def filter_empty_conv split: node.splits)

lemma node_ok_None_after_remove:
  "list_all (node_ok te) xs \<Longrightarrow>
   list_all (node_ok None) (case te of None \<Rightarrow> xs | Some k \<Rightarrow> removeAll (Overlay k) xs)"
  by (cases te) (auto simp: list_all_iff node_ok_def split: node.splits)

lemma stopTimer_no_overlay:
  assumes "consistent s"
  shows "filter is_overlay_task (timers (stopTimer s)) = []"
    and "filter is_overlay (body (stopTimer s)) = []"
  using no_overlay_task_after_clear [OF consistentD(1) [OF assms]]
        no_overlay_node_after_remove [OF consistentD(2) [OF assms]]
  by (simp_all only: timers_stopTimer body_stopTimer)

lemma consistent_stopTimer:
  assumes "consistent s"
  shows "consistent (stopTimer s)"
proof (rule consistentI)
  note d = consistentD [OF assms]
  show "list_all (task_ok (timerInterval (stopTimer s)) (cpsUpdateInterval (stopTimer s))
          (state (stopTimer s))) (timers (stopTimer s))"
    using timers_stopTimer_cases [of s] d(1) by (auto simp del: filter_filter intro: list_all_filter)
  show "list_all (node_ok (timerElement (stopTimer s))) (body (stopTimer s))"
    using node_ok_None_after_remove [OF d(2)] by (simp add: body_stopTimer)
  show "length (filter is_burst_task (timers (stopTimer s))) \<le> 1"
    using timers_stopTimer_cases [of s] d(3) by (auto simp del: filter_filter intro: burst_count_filter)
  show "length (filter is_overlay_task (timers (stopTimer s))) \<le> 1"
    using stopTimer_no_overlay(1) [OF assms] by simp
  show "length (filter is_overlay (body (stopTimer s))) \<le> 1"
    using stopTimer_no_overlay(2) [OF assms] by simp
  show "fetchPending (stopTimer s) \<Longrightarrow> state (stopTimer s) = 6"
    using d(6) by simp
qed

lemma consistent_resetSequence:
  assumes "consistent s"
  shows "consistent (resetSequence m s)"
proof -
  have "consistent (stopTimer (clearInterval (cpsUpdateInterval s) s))"
    using assms by (intro consistent_stopTimer consistent_clearInterval)
  then show ?thesis
    by (simp add: resetSequence_def Let_def consistent_def)
qed

lemma timers_startTimer:
  "timers (startTimer d t s) = timers (stopTimer s) @ [(nextId s, OverlayTask t d)]"
  "timerInterval (startTimer d t s) = Some (nextId s)"
  "timerElement (startTimer d t s) = Some (nextElement s)"
  "body (startTimer d t s) = removeAll (Overlay (nextElement s)) (body (stopTimer s)) @ [Overlay (nextElement s)]"
  "nextId (startTimer d t s) = Suc (nextId s)"
  "nextElement (startTimer d t s) = Suc (nextElement s)"
  by (simp_all add: startTimer_def schedule_def appendChild_def Let_def stopTimer_def remove_def clearInterval_def
      split: option.splits)

lemma task_ok_not_overlay:
  "list_all (task_ok ti ci st) xs \<Longrightarrow> filter is_overlay_task xs = [] \<Longrightarrow> list_all (task_ok ti' ci st) xs"
  by (auto simp: list_all_iff task_ok_def is_overlay_task_def filter_empty_conv split: task.splits)

lemma node_ok_not_overlay:
  "filter is_overlay xs = [] \<Longrightarrow> list_all (node_ok te) xs"
  by (auto simp: list_all_iff node_ok_def is_overlay_def filter_empty_conv split: node.splits)

lemma consistent_startTimer:
  assumes "consistent s"
  shows "consistent (startTimer d t s)"
proof -
  let ?s1 = "stopTimer s"
  have c1: "consistent ?s1" using assms by (rule consistent_stopTimer)
  have no: "filter is_overlay_task (timers ?s1) = []" "filter is_overlay (body ?s1) = []"
    using stopTimer_no_overlay [OF assms] by simp_all
  have a: "list_all (task_ok (Some (nextId s)) (cpsUpdateInterval s) (state s)) (timers ?s1)"
    using c1 no(1) unfolding consistent_def by (auto intro: task_ok_not_overlay)
  have b: "list_all (node_ok (Some (nextElement s))) (removeAll (Overlay (nextElement s)) (body ?s1))"
    using no(2) by (intro list_all_removeAll node_ok_not_overlay)
  have c: "length (filter is_burst_task (timers ?s1)) \<le> 1" "fetchPending s \<longrightarrow> state s = 6"
    using c1 unfolding consistent_def by simp_all
  have e: "filter is_overlay (removeAll (Overlay (nextElement s)) (body ?s1)) = []"
    using no(2) by (rule filter_removeAll_empty)
  show ?thesis
    unfolding consistent_def
    using a b c e no(1)
    by (simp add: timers_startTimer task_ok_def node_ok_def is_burst_task_def
          is_overlay_task_def is_overlay_def)
qed



lemma consistent_init: "consistent init"
  by (simp add: consistent_def init_def node_ok_def)

lemma no_burst_outside_5:
  assumes "consistent s" "state s \<noteq> 5"
  shows "filter is_burst_task (timers s) = []"
  using consistentD(1) [OF assms(1)] assms(2)
  by (auto simp: list_all_iff task_ok_def is_burst_task_def filter_empty_conv split: task.splits)

lemma only_overlay_outside_5:
  assumes "consistent s" "state s \<noteq> 5"
  shows "filter is_overlay_task (timers s) = timers s"
  using consistentD(1) [OF assms(1)] assms(2)
  by (auto simp: list_all_iff task_ok_def is_overlay_task_def filter_id_conv split: task.splits)

lemma timers_stopTimer_outside_5:
  assumes "consistent s" "state s \<noteq> 5"
  shows "timers (stopTimer s) = []"
proof -
  have "filter is_overlay_task (timers (stopTimer s)) = timers (stopTimer s)"
    using only_overlay_outside_5 [OF consistent_stopTimer [OF assms(1)]] assms(2) by simp
  with stopTimer_no_overlay(1) [OF assms(1)] show ?thesis by simp
qed

text \<open>With no timeout pending, \<open>resetSequence\<close> empties the timer table.\<close>

lemma timers_resetSequence:
  "timers (resetSequence m s) =
     filter (\<lambda>e. Some (fst e) \<noteq> cpsUpdateInterval s \<and> Some (fst e) \<noteq> timerInterval s) (timers s)"
  by (cases "cpsUpdateInterval s"; cases "timerInterval s")
     (simp_all add: resetSequence_def Let_def timers_stopTimer timers_clearInterval conj_commute)

lemma body_resetSequence:
  "body (resetSequence m s) = body (stopTimer s)"
  by (cases "timerElement s") (simp_all add: resetSequence_def Let_def body_stopTimer)

lemma reset_clears_timers:
  assumes "consistent s" "filter is_burst_task (timers s) = []"
  shows "timers (resetSequence m s) = []"
proof -
  have "Some (fst e) = cpsUpdateInterval s \<or> Some (fst e) = timerInterval s"
    if "e \<in> set (timers s)" for e
  proof (cases "snd e")
    case (OverlayTask a b)
    with consistentD(1) [OF assms(1)] that show ?thesis
      by (auto simp: list_all_iff task_ok_def)
  next
    case CpsTask
    with consistentD(1) [OF assms(1)] that show ?thesis
      by (auto simp: list_all_iff task_ok_def)
  next
    case BurstTask
    with assms(2) that show ?thesis
      by (auto simp: filter_empty_conv is_burst_task_def)
  qed
  then show ?thesis
    unfolding timers_resetSequence filter_empty_conv by blast
qed

lemma reset_clears_overlay:
  assumes "consistent s"
  shows "filter is_overlay (body (resetSequence m s)) = []"
  using stopTimer_no_overlay(2) [OF assms] by (simp add: body_resetSequence)

lemma fired_burst_gone:
  assumes "consistent s" "map_of (timers s) i = Some BurstTask"
  shows "filter is_burst_task (timers (clearInterval (Some i) s)) = []"
proof -
  have m: "(i, BurstTask) \<in> set (timers s)"
    using assms(2) by (rule map_of_SomeD)
  have "filter is_burst_task (timers s) = [(i, BurstTask)]"
    using consistentD(3) [OF assms(1)] m by (intro filter_singleton) (simp_all add: is_burst_task_def)
  then have "filter (\<lambda>e. fst e \<noteq> i) (filter is_burst_task (timers s)) = []"
    by simp
  then show ?thesis
    by (simp add: timers_clearInterval conj_commute)
qed


lemma consistent_frame:
  assumes "consistent s"
    and "timers s' = timers s" "body s' = body s" "timerInterval s' = timerInterval s"
    and "cpsUpdateInterval s' = cpsUpdateInterval s" "timerElement s' = timerElement s"
    and "state s' = state s" "fetchPending s' \<longrightarrow> fetchPending s"
  shows "consistent s'"
  using assms unfolding consistent_def by simp

lemma consistent_new_state:
  assumes "consistent s" "state s \<noteq> 5" "state s \<noteq> 6"
    and "timers s' = timers s" "body s' = body s" "timerInterval s' = timerInterval s"
    and "cpsUpdateInterval s' = cpsUpdateInterval s" "timerElement s' = timerElement s"
    and "fetchPending s' = fetchPending s"
  shows "consistent s'"
proof (rule consistentI)
  note d = consistentD [OF assms(1)]
  have "task_ok (timerInterval s) (cpsUpdateInterval s) (state s') e" if "e \<in> set (timers s)" for e
    using d(1) that assms(2) by (auto simp: list_all_iff task_ok_def split: task.splits)
  then show "list_all (task_ok (timerInterval s') (cpsUpdateInterval s') (state s')) (timers s')"
    using assms by (simp add: list_all_iff)
  show "list_all (node_ok (timerElement s')) (body s')"
    using d(2) assms by simp
  show "length (filter is_burst_task (timers s')) \<le> 1"
    using d(3) assms by simp
  show "length (filter is_overlay_task (timers s')) \<le> 1"
    using d(4) assms by simp
  show "length (filter is_overlay (body s')) \<le> 1"
    using d(5) assms by simp
  show "fetchPending s' \<Longrightarrow> state s' = 6"
    using d(6) assms by auto
qed

lemma consistent_zone_moves:
  assumes "consistent s" "\<not> is_overlay n"
  shows "consistent (remove n s)" "consistent (appendChild n s)"
proof -
  have "node_ok te n" for te
    using assms(2) by (cases n) (simp_all add: node_ok_def is_overlay_def)
  with assms show "consistent (remove n s)" "consistent (appendChild n s)"
    unfolding consistent_def
    by (simp_all add: remove_def appendChild_def list_all_removeAll filter_removeAll_other)
qed

lemma consistent_zone1_click:
  assumes "consistent s"
  shows "consistent (zone1_click now t s)"
proof (cases "state s = 0")
  case True
  have "consistent (s\<lparr>state := 1, lastClickTimestamp := now\<rparr>)"
    using True by (intro consistent_new_state [OF assms]) simp_all
  then have "consistent (appendChild Zone2 (remove Zone1
          (startTimer 3500 t (s\<lparr>state := 1, lastClickTimestamp := now\<rparr>))))"
    by (intro consistent_zone_moves consistent_startTimer) (simp_all add: is_overlay_def)
  with True show ?thesis by (simp add: zone1_click_def)
next
  case False
  with assms show ?thesis by (simp add: zone1_click_def)
qed

lemma consistent_zone2_click:
  assumes "consistent s"
  shows "consistent (zone2_click now1 now2 t s)"
proof (cases "state s = 1")
  case True
  have "consistent (s\<lparr>state := 2, lastClickTimestamp := now2\<rparr>)"
    using True by (intro consistent_new_state [OF assms]) simp_all
  then have "consistent (appendChild Zone3 (remove Zone2
          (startTimer 4500 t (s\<lparr>state := 2, lastClickTimestamp := now2\<rparr>))))"
    by (intro consistent_zone_moves consistent_startTimer) (simp_all add: is_overlay_def)
  with True consistent_resetSequence [OF assms] show ?thesis
    by (simp add: zone2_click_def Let_def)
next
  case False
  with assms show ?thesis by (simp add: zone2_click_def)
qed


lemma timers_stopTimer_update [simp]:
  "timers (stopTimer (s\<lparr>state := n\<rparr>)) = timers (stopTimer s)"
  "timers (stopTimer (s\<lparr>state := n, lastClickTimestamp := l\<rparr>)) = timers (stopTimer s)"
  "timers (stopTimer (s\<lparr>state := n, clickerTimestamps := c\<rparr>)) = timers (stopTimer s)"
  by (cases "timerInterval s"; simp add: timers_stopTimer)+

lemma consistent_arming:
  assumes "consistent s" "state s = 4"
  shows "consistent
    (let a = startTimer 3000 t (s\<lparr>state := 5, clickerTimestamps := []\<rparr>);
         (h, b) = schedule BurstTask a;
         (i, c) = schedule CpsTask b
     in c\<lparr>cpsUpdateInterval := Some i\<rparr>)"
proof -
  let ?s5 = "s\<lparr>state := 5, clickerTimestamps := []\<rparr>"
  let ?a = "startTimer 3000 t ?s5"
  have c5: "consistent ?s5"
    using assms(2) by (intro consistent_new_state [OF assms(1)]) simp_all
  have ca: "consistent ?a"
    using c5 by (rule consistent_startTimer)
  have ta: "timers ?a = [(nextId s, OverlayTask t 3000)]"
    using timers_stopTimer_outside_5 [OF assms(1)] assms(2) by (simp add: timers_startTimer)
  have fa: "timerInterval ?a = Some (nextId s)" "state ?a = 5" "\<not> fetchPending ?a"
    using consistentD(6) [OF assms(1)] assms(2) by (auto simp: timers_startTimer)
  from consistentD(2) [OF ca] consistentD(5) [OF ca] ta fa show ?thesis
    by (simp add: consistent_def schedule_def Let_def task_ok_def is_burst_task_def
          is_overlay_task_def)
qed

lemma consistent_zone3_click:
  assumes "consistent s"
  shows "consistent (zone3_click now t s)"
proof -
  consider (two) "state s = 2" | (three) "state s = 3" | (four) "state s = 4"
    | (five) "state s = 5" | (other) "state s \<notin> {2, 3, 4, 5}"
    by auto
  then show ?thesis
  proof cases
    case two
    have "consistent (s\<lparr>state := 3, lastClickTimestamp := now\<rparr>)"
      using two by (intro consistent_new_state [OF assms]) simp_all
    then have "consistent (startTimer 3000 t (s\<lparr>state := 3, lastClickTimestamp := now\<rparr>))"
      by (rule consistent_startTimer)
    with two consistent_resetSequence [OF assms] show ?thesis
      by (simp add: zone3_click_def Let_def)
  next
    case three
    have "consistent (s\<lparr>state := 4\<rparr>)"
      using three by (intro consistent_new_state [OF assms]) simp_all
    then have "consistent (stopTimer (s\<lparr>state := 4\<rparr>))"
      by (rule consistent_stopTimer)
    then have "consistent ((stopTimer (s\<lparr>state := 4\<rparr>))\<lparr>zone3Skin := Button, zone3Text := START\<rparr>)"
      by (rule consistent_frame) simp_all
    with three consistent_resetSequence [OF assms] show ?thesis
      by (simp add: zone3_click_def Let_def)
  next
    case four
    let ?c = "let a = startTimer 3000 t (s\<lparr>state := 5, clickerTimestamps := []\<rparr>);
                  (h, b) = schedule BurstTask a;
                  (i, c) = schedule CpsTask b
              in c\<lparr>cpsUpdateInterval := Some i\<rparr>"
    have c: "consistent ?c"
      using assms four by (rule consistent_arming)
    have five: "state ?c = 5"
      by (simp add: schedule_def Let_def)
    have "consistent (?c\<lparr>clickerTimestamps := clickerTimestamps ?c @ [now]\<rparr>)"
      using c by (rule consistent_frame) simp_all
    moreover have "zone3_click now t s = ?c\<lparr>clickerTimestamps := clickerTimestamps ?c @ [now]\<rparr>"
      using four five by (simp add: zone3_click_def Let_def)
    ultimately show ?thesis by simp
  next
    case five
    have "consistent (s\<lparr>clickerTimestamps := clickerTimestamps s @ [now]\<rparr>)"
      using assms by (rule consistent_frame) simp_all
    with five show ?thesis by (simp add: zone3_click_bursting)
  next
    case other
    with assms show ?thesis by (simp add: zone3_click_def)
  qed
qed

lemma consistent_overlayTick:
  assumes "consistent s"
  shows "consistent (overlayTick st d now s)"
proof -
  have "consistent (s\<lparr>overlayText := x\<rparr>)" for x
    using assms by (rule consistent_frame) simp_all
  with assms consistent_stopTimer [OF assms] show ?thesis
    by (simp add: overlayTick_def Let_def split: option.splits)
qed

lemma consistent_cpsUpdate:
  assumes "consistent s"
  shows "consistent (cpsUpdate clock s)"
  unfolding cpsUpdate_def using assms by (rule consistent_frame) simp_all

lemma timers_burst_success:
  "timers (stopTimer (clearInterval (cpsUpdateInterval s) (s\<lparr>state := 6\<rparr>))) = timers (resetSequence m s)"
  by (cases "cpsUpdateInterval s"; cases "timerInterval s")
     (simp_all add: resetSequence_def Let_def timers_stopTimer timers_clearInterval)

lemma body_burst_success:
  "body (stopTimer (clearInterval (cpsUpdateInterval s) (s\<lparr>state := 6\<rparr>))) = body (stopTimer s)"
  by (cases "timerElement s") (simp_all add: body_stopTimer)

lemma consistent_burstEvaluation:
  assumes "consistent s" "filter is_burst_task (timers s) = []"
  shows "consistent (burstEvaluation s)"
proof (cases "state s = 5 \<and> 180 \<le> length (clickerTimestamps s)")
  case True
  let ?s3 = "stopTimer (clearInterval (cpsUpdateInterval s) (s\<lparr>state := 6\<rparr>))"
  have t: "timers ?s3 = []"
    using reset_clears_timers [OF assms, of CommError] timers_burst_success [of s CommError]
    by simp
  have b: "list_all (node_ok None) (body ?s3)"
    using consistentD(2) [OF consistent_stopTimer [OF assms(1)]] by (simp add: body_burst_success)
  have o: "filter is_overlay (body ?s3) = []"
    using stopTimer_no_overlay(2) [OF assms(1)] by (simp add: body_burst_success)
  have "consistent (?s3\<lparr>zone3Skin := Success, zone3Text := OK, fetchPending := True\<rparr>)"
    using t b o by (simp add: consistent_def)
  with True show ?thesis
    by (simp add: burstEvaluation_def Let_def)
next
  case False
  with assms(1) consistent_resetSequence [OF assms(1)] show ?thesis
    by (auto simp: burstEvaluation_def Let_def)
qed

lemma consistent_fetchSettled:
  assumes "consistent s"
  shows "consistent (fetchSettled r s)"
proof -
  have "consistent (s\<lparr>href := x\<rparr>)" for x
    using assms by (rule consistent_frame) simp_all
  with assms consistent_resetSequence [OF assms] show ?thesis
    by (simp add: fetchSettled_def split: response.splits option.splits)
qed

lemma consistent_dispatch:
  assumes "consistent s"
  shows "consistent (dispatch ev s)"
proof (cases ev)
  case (ClickZone1 now t)
  with consistent_zone1_click [OF assms] show ?thesis by (simp add: dispatch_def)
next
  case (ClickZone2 now1 now2 t)
  with consistent_zone2_click [OF assms] show ?thesis by (simp add: dispatch_def)
next
  case (ClickZone3 now t)
  with consistent_zone3_click [OF assms] show ?thesis by (simp add: dispatch_def)
next
  case (OverlayFires i now)
  with assms consistent_overlayTick [OF assms] show ?thesis
    by (simp add: dispatch_def split: option.splits task.splits)
next
  case (CpsFires i clock)
  with assms consistent_cpsUpdate [OF assms] show ?thesis
    by (simp add: dispatch_def split: option.splits task.splits)
next
  case (BurstFires i)
  show ?thesis
  proof (cases "map_of (timers s) i = Some BurstTask")
    case True
    have "consistent (burstEvaluation (clearInterval (Some i) s))"
      using consistent_clearInterval [OF assms] fired_burst_gone [OF assms True]
      by (rule consistent_burstEvaluation)
    with True BurstFires show ?thesis by (simp add: dispatch_def)
  next
    case False
    with assms BurstFires show ?thesis
      by (simp add: dispatch_def split: option.splits task.splits)
  qed
next
  case (FetchSettles r)
  have "consistent (s\<lparr>fetchPending := False\<rparr>)"
    using assms by (rule consistent_frame) simp_all
  from consistent_fetchSettled [OF this] assms FetchSettles show ?thesis
    by (simp add: dispatch_def)
qed

lemma consistent_run:
  "consistent s \<Longrightarrow> consistent (run evs s)"
  by (induction evs arbitrary: s) (simp_all add: consistent_dispatch)



lemma resetLog_clicks:
  "resetLog (zone1_click now t s) = resetLog s"
  "state s \<noteq> 1 \<Longrightarrow> resetLog (zone2_click now1 now2 t s) = resetLog s"
  "state s \<noteq> 2 \<Longrightarrow> state s \<noteq> 3 \<Longrightarrow> resetLog (zone3_click now t s) = resetLog s"
  by (simp_all add: zone1_click_def zone2_click_def zone3_click_def remove_def appendChild_def
      schedule_def Let_def)

lemma resetLog_ticks:
  "resetLog (overlayTick st d now s) = resetLog s"
  "resetLog (cpsUpdate clock s) = resetLog s"
  by (simp_all add: overlayTick_def cpsUpdate_def Let_def split: option.splits)

lemma dispatch_reset_cases:
  assumes c: "consistent s"
    and r: "resetLog (dispatch ev s) \<noteq> resetLog s"
  shows "\<exists>m s0. dispatch ev s = resetSequence m s0 \<and> consistent s0
            \<and> filter is_burst_task (timers s0) = [] \<and> reloads s0 = reloads s
            \<and> \<not> fetchPending s0"
proof (cases ev)
  case (ClickZone1 now t)
  with r show ?thesis by (simp add: dispatch_def resetLog_clicks)
next
  case (ClickZone2 now1 now2 t)
  have one: "state s = 1"
  proof (rule ccontr)
    assume "state s \<noteq> 1"
    from resetLog_clicks(2) [OF this] r ClickZone2 show False
      by (simp add: dispatch_def)
  qed
  with r ClickZone2 have "dispatch ev s = resetSequence (WrongTiming (now1 - lastClickTimestamp s)) s"
    by (auto simp: dispatch_def zone2_click_def Let_def remove_def appendChild_def split: if_splits)
  moreover have "filter is_burst_task (timers s) = []"
    using one by (intro no_burst_outside_5 [OF c]) simp
  moreover have "\<not> fetchPending s"
    using consistentD(6) [OF c] one by auto
  ultimately show ?thesis using c by blast
next
  case (ClickZone3 now t)
  have st: "state s = 2 \<or> state s = 3"
  proof (rule ccontr)
    assume "\<not> (state s = 2 \<or> state s = 3)"
    then have "state s \<noteq> 2" "state s \<noteq> 3"
      by simp_all
    from resetLog_clicks(3) [OF this] r ClickZone3 show False
      by (simp add: dispatch_def)
  qed
  with r ClickZone3 obtain m where d: "dispatch ev s = resetSequence m s"
    by (auto simp: dispatch_def zone3_click_def Let_def split: if_splits)
  have "filter is_burst_task (timers s) = []"
    using st by (intro no_burst_outside_5 [OF c]) auto
  moreover have "\<not> fetchPending s"
    using consistentD(6) [OF c] st by auto
  ultimately show ?thesis using c d by blast
next
  case (OverlayFires i now)
  with r show ?thesis
    by (simp add: dispatch_def resetLog_ticks split: option.splits task.splits)
next
  case (CpsFires i clock)
  with r show ?thesis
    by (simp add: dispatch_def resetLog_ticks split: option.splits task.splits)
next
  case (BurstFires i)
  let ?s0 = "clearInterval (Some i) s"
  from r BurstFires have m: "map_of (timers s) i = Some BurstTask"
    by (auto simp: dispatch_def split: option.splits task.splits)
  with BurstFires have d: "dispatch ev s = burstEvaluation ?s0"
    by (simp add: dispatch_def)
  with r have b: "burstEvaluation ?s0 = resetSequence (TooFewClicks (length (clickerTimestamps ?s0))) ?s0"
    and five: "state s = 5"
    by (auto simp: burstEvaluation_def Let_def split: if_splits)
  have "\<not> fetchPending ?s0"
    using consistentD(6) [OF c] five by auto
  with b d consistent_clearInterval [OF c] fired_burst_gone [OF c m] show ?thesis
    by (intro exI [of _ "TooFewClicks (length (clickerTimestamps ?s0))"] exI [of _ ?s0]) simp
next
  case (FetchSettles resp)
  let ?s0 = "s\<lparr>fetchPending := False\<rparr>"
  from r FetchSettles have p: "fetchPending s"
    by (auto simp: dispatch_def split: if_splits)
  then have six: "state s = 6"
    by (rule consistentD(6) [OF c])
  have c0: "consistent ?s0"
    using c by (rule consistent_frame) simp_all
  have "state ?s0 \<noteq> 5"
    using six by simp
  note nb = no_burst_outside_5 [OF c0 this]
  from p FetchSettles have d: "dispatch ev s = fetchSettled resp ?s0"
    by (simp add: dispatch_def)
  with r have "fetchSettled resp ?s0 = resetSequence CommError ?s0"
    by (auto simp: fetchSettled_def split: response.splits option.splits if_splits)
  with d c0 nb show ?thesis
    by (intro exI [of _ CommError] exI [of _ ?s0]) simp
qed

lemma attempt_eq:
  "run [ClickZone1 0 0, ClickZone2 2500 2500 2500, ClickZone3 6000 6000, ClickZone3 8500 8500,
        ClickZone3 9000 9000] init = bursting"
  by (simp add: bursting_def armed_def stage3_def stage2_def stage1_def)

section \<open>Reset and the scheduled callbacks\<close>

text \<open>
  C5: whenever \<open>resetSequence\<close> is called in a run of the page, no interval, timeout or
  overlay that was active at that moment is left when it has asked for the reload: the
  timer table is empty, the overlay is gone and no request is pending.
  \<open>resetSequence\<close> itself cancels the two handles it has, those of the rate interval
  and of the overlay interval (last conjunct); the burst timeout is never pending at a
  call, which comes in states 1 to 3, from the timeout's own callback, or after state 6.
\<close>

theorem reset_leaves_no_callback:
  assumes "resetLog (dispatch ev (run evs init)) \<noteq> resetLog (run evs init)"
  shows "timers (dispatch ev (run evs init)) = []
       \<and> timerElement (dispatch ev (run evs init)) = None
       \<and> filter is_overlay (body (dispatch ev (run evs init))) = []
       \<and> \<not> fetchPending (dispatch ev (run evs init))
       \<and> reloads (dispatch ev (run evs init)) = Suc (reloads (run evs init))
       \<and> timers (resetSequence msg s) =
           filter (\<lambda>e. Some (fst e) \<noteq> cpsUpdateInterval s \<and> Some (fst e) \<noteq> timerInterval s)
             (timers s)"
proof -
  let ?s = "run evs init"
  have c: "consistent ?s"
    using consistent_init by (rule consistent_run)
  from dispatch_reset_cases [OF c assms] obtain m s0 where
    d: "dispatch ev ?s = resetSequence m s0" and c0: "consistent s0"
    and nb: "filter is_burst_task (timers s0) = []" and rl: "reloads s0 = reloads ?s"
    and nf: "\<not> fetchPending s0"
    by blast
  from reset_clears_timers [OF c0 nb, of m] reset_clears_overlay [OF c0, of m] d rl nf
    timers_resetSequence [of msg s]
  show ?thesis by simp
qed

theorem reset_leaves_no_callback_witness:
  "resetLog (dispatch (ClickZone2 1999 1999 1999) stage1) \<noteq> resetLog stage1
 \<and> timers stage1 = [(1, OverlayTask 0 3500)]
 \<and> timers (dispatch (ClickZone2 1999 1999 1999) stage1) = []
 \<and> reloads (dispatch (ClickZone2 1999 1999 1999) stage1) = 1
 \<and> resetLog (dispatch (BurstFires 5) bursting) \<noteq> resetLog bursting
 \<and> timers bursting = [(4, OverlayTask 9000 3000), (5, BurstTask), (6, CpsTask)]
 \<and> timers (dispatch (BurstFires 5) bursting) = []
 \<and> timerElement (dispatch (BurstFires 5) bursting) = None
 \<and> reloads (dispatch (BurstFires 5) bursting) = 1"
proof -
  have r1: "run [ClickZone1 0 0] init = stage1"
    by (simp add: stage1_def)
  have h1: "resetLog (dispatch (ClickZone2 1999 1999 1999) stage1) \<noteq> resetLog stage1"
    by (simp add: dispatch_def zone2_click_def stage_facts)
  have h2: "resetLog (dispatch (BurstFires 5) bursting) \<noteq> resetLog bursting"
    by (simp add: dispatch_def burstEvaluation_def bursting_eq clearInterval_def)
  from reset_leaves_no_callback [of "ClickZone2 1999 1999 1999" "[ClickZone1 0 0]"]
       reset_leaves_no_callback [of "BurstFires 5" "[ClickZone1 0 0, ClickZone2 2500 2500 2500,
          ClickZone3 6000 6000, ClickZone3 8500 8500, ClickZone3 9000 9000]"]
       h1 h2
  show ?thesis
    unfolding r1 attempt_eq by (simp add: stage1_eq bursting_eq)
qed

section \<open>The overlay\<close>

lemma stopTimer_idem: "stopTimer (stopTimer s) = stopTimer s"
  by (cases "timerInterval s"; cases "timerElement s")
     (simp_all add: stopTimer_def clearInterval_def remove_def Let_def)

lemma stopTimer_inactive:
  assumes "timerElement s = None" "\<forall>i. timerInterval s = Some i \<longrightarrow> i \<notin> fst ` set (timers s)"
  shows "stopTimer s = s"
proof -
  have "filter (\<lambda>e. fst e \<noteq> i) (timers s) = timers s" if "timerInterval s = Some i" for i
    using assms(2) that by (auto simp: filter_id_conv)
  with assms(1) show ?thesis
    by (cases "timerInterval s") (simp_all add: stopTimer_def clearInterval_def Let_def)
qed

text \<open>
  C8: at any moment of a run at most one overlay is active (at most one overlay element
  below \<open>body\<close> and at most one overlay callback in the timer table); \<open>startTimer\<close>
  removes the one there is before it mounts its own, so that exactly the new one is
  active afterwards; \<open>stopTimer\<close> called twice gives the page that one call gives, and
  called with no overlay active (no element, no live interval under the stored handle)
  it changes nothing.
\<close>

theorem at_most_one_overlay:
  "length (filter is_overlay (body (run evs init))) \<le> 1
 \<and> length (filter is_overlay_task (timers (run evs init))) \<le> 1
 \<and> filter is_overlay (body (startTimer d t (run evs init))) = [Overlay (nextElement (run evs init))]
 \<and> filter is_overlay_task (timers (startTimer d t (run evs init))) = [(nextId (run evs init), OverlayTask t d)]
 \<and> stopTimer (stopTimer s) = stopTimer s
 \<and> (timerElement s = None \<and> (\<forall>i. timerInterval s = Some i \<longrightarrow> i \<notin> fst ` set (timers s))
      \<longrightarrow> stopTimer s = s)"
proof -
  let ?s = "run evs init"
  have c: "consistent ?s"
    using consistent_init by (rule consistent_run)
  have n: "filter is_overlay (removeAll (Overlay (nextElement ?s)) (body (stopTimer ?s))) = []"
    using stopTimer_no_overlay(2) [OF c] by (rule filter_removeAll_empty)
  have "filter is_overlay (body (startTimer d t ?s)) = [Overlay (nextElement ?s)]"
    using n by (simp add: timers_startTimer is_overlay_def)
  moreover have "filter is_overlay_task (timers (startTimer d t ?s)) = [(nextId ?s, OverlayTask t d)]"
    using stopTimer_no_overlay(1) [OF c] by (simp add: timers_startTimer is_overlay_task_def)
  ultimately show ?thesis
    using consistentD(4) [OF c] consistentD(5) [OF c] stopTimer_idem [of s] stopTimer_inactive [of s]
    by blast
qed

theorem at_most_one_overlay_witness:
  "filter is_overlay (body stage1) = [Overlay 0]
 \<and> filter is_overlay (body (startTimer 4500 2500 stage1)) = [Overlay 1]
 \<and> filter is_overlay_task (timers (startTimer 4500 2500 stage1)) = [(2, OverlayTask 2500 4500)]
 \<and> stopTimer (stopTimer stage1) = stopTimer stage1
 \<and> timerElement armed = None \<and> timers armed = []
 \<and> stopTimer armed = armed"
proof -
  have r1: "run [ClickZone1 0 0] init = stage1"
    by (simp add: stage1_def)
  have h: "timerElement armed = None \<and> (\<forall>i. timerInterval armed = Some i \<longrightarrow> i \<notin> fst ` set (timers armed))"
    by (simp add: armed_eq)
  have f: "filter is_overlay (body stage1) = [Overlay 0]" "nextElement stage1 = 1" "nextId stage1 = 2"
    "timers armed = []"
    by (simp_all add: stage1_eq armed_eq is_overlay_def)
  from at_most_one_overlay [of "[ClickZone1 0 0]" 4500 2500 stage1]
       at_most_one_overlay [of "[]" 0 0 armed] h f
  show ?thesis
    unfolding r1 by simp
qed

end
